theory Spec2Isabelle
  imports Main
begin

section \<open>Values read from the dataset\<close>

text \<open>
  A value as \<^verbatim>\<open>json.loads\<close> and pandas hand it to the application: \<open>PNaN\<close> is the
  cell pandas puts where a record has no value for a column. A Python dict is the list of
  its key/value pairs in insertion order; its keys are pairwise distinct, and a lookup is
  \<open>map_of\<close>.
\<close>

datatype pyval =
    PNone
  | PNaN
  | PBool bool
  | PInt int
  | PStr string
  | PList "pyval list"
  | PDict "(string \<times> pyval) list"

subsection \<open>Option normalisation (\<^verbatim>\<open>order_opts\<close>, app.py lines 64-69)\<close>

text \<open>\<^verbatim>\<open>keys = ["A", "B", "C", "D", "E"]\<close>\<close>

definition opt_keys :: "string list" where
  "opt_keys = [''A'', ''B'', ''C'', ''D'', ''E'']"

text \<open>\<^verbatim>\<open>{k: d[k] for k in keys if k in d}\<close>, over any dict's pairs.\<close>

definition order_opts :: "(string \<times> 'v) list \<Rightarrow> (string \<times> 'v) list" where
  "order_opts d =
     concat (map (\<lambda>k. case map_of d k of None \<Rightarrow> [] | Some v \<Rightarrow> [(k, v)]) opt_keys)"

text \<open>\<^verbatim>\<open>lambda d: order_opts(d) if isinstance(d, dict) else d\<close>\<close>

fun normalize_options :: "pyval \<Rightarrow> pyval" where
  "normalize_options (PDict d) = PDict (order_opts d)"
| "normalize_options v = v"

section \<open>Strings\<close>

text \<open>
  \<^verbatim>\<open>str.lower\<close> and \<^verbatim>\<open>str.strip\<close> are Python's own, defined on all of Unicode. The
  functions of the application take them as the parameters \<open>lower\<close> and \<open>strip\<close>, so
  that nothing below depends on how a particular character is treated.
\<close>

type_synonym str_fun = "string \<Rightarrow> string"

text \<open>
  On a string of ASCII characters the two builtins are the following functions: letters
  A-Z go to a-z, and the characters stripped from both ends are the ASCII ones that
  \<^verbatim>\<open>str.isspace\<close> accepts (space, tab, line feed, vertical tab, form feed, carriage
  return and the separators 28 to 31). They serve where a concrete input is evaluated.
\<close>

definition lower_char :: "char \<Rightarrow> char" where
  "lower_char c =
     (if 65 \<le> (of_char c :: nat) \<and> (of_char c :: nat) \<le> 90
      then char_of ((of_char c :: nat) + 32) else c)"

definition ascii_lower :: str_fun where
  "ascii_lower s = map lower_char s"

definition is_space :: "char \<Rightarrow> bool" where
  "is_space c =
     ((of_char c :: nat) = 32 \<or> (9 \<le> (of_char c :: nat) \<and> (of_char c :: nat) \<le> 13)
      \<or> (28 \<le> (of_char c :: nat) \<and> (of_char c :: nat) \<le> 31))"

definition ascii_strip :: str_fun where
  "ascii_strip s = rev (dropWhile is_space (rev (dropWhile is_space s)))"

text \<open>\<^verbatim>\<open>s.split(",")\<close>: always at least one piece.\<close>

fun split_comma :: "string \<Rightarrow> string list" where
  "split_comma [] = [[]]"
| "split_comma (c # cs) =
     (if c = CHR '','' then [] # split_comma cs
      else (case split_comma cs of [] \<Rightarrow> [[c]] | p # ps \<Rightarrow> (c # p) # ps))"

section \<open>Session state\<close>

text \<open>
  The dict that \<^verbatim>\<open>sign_in\<close> returns: \<^verbatim>\<open>{"email": res.user.email, "id": res.user.id}\<close>; the
  provider may leave the email unset.
\<close>

record user =
  email :: "string option"
  user_id :: string

text \<open>
  \<^verbatim>\<open>st.session_state\<close> after \<^verbatim>\<open>init_session\<close>: the four keys the application owns.
  \<open>responses\<close> maps a \<^verbatim>\<open>case_id\<close> to the value of the radio widget at Submit, which
  is \<open>None\<close> when the item offers no option.
\<close>

record session =
  auth_user :: "user option"
  quiz_index :: int
  quiz_score :: int
  responses :: "string \<rightharpoonup> string option"

text \<open>What the \<^verbatim>\<open>setdefault\<close> calls of \<^verbatim>\<open>init_session\<close> leave in a fresh session.\<close>

definition init_session :: session where
  "init_session = \<lparr>auth_user = None, quiz_index = 0, quiz_score = 0, responses = Map.empty\<rparr>"

text \<open>The messages the application shows (\<^verbatim>\<open>st.warning\<close>, \<^verbatim>\<open>st.error\<close>, \<^verbatim>\<open>st.success\<close>).\<close>

datatype message = Warning string | Error string | Success string

datatype py_error = IndexError | OSError | JSONDecodeError

section \<open>Authorization gate\<close>

text \<open>
  \<^verbatim>\<open>ADMIN_EMAILS = [e.strip().lower() for e in cfg.split(",") if e.strip()]\<close>, where
  \<open>cfg\<close> is the configured secret (\<^verbatim>\<open>""\<close> when it is absent).
\<close>

definition ADMIN_EMAILS :: "str_fun \<Rightarrow> str_fun \<Rightarrow> string \<Rightarrow> string list" where
  "ADMIN_EMAILS lower strip cfg =
     map (\<lambda>e. lower (strip e)) (filter (\<lambda>e. strip e \<noteq> []) (split_comma cfg))"

definition is_logged_in :: "session \<Rightarrow> bool" where
  "is_logged_in s = (auth_user s \<noteq> None)"

text \<open>\<^verbatim>\<open>(user.get("email") or "").lower() if user else None\<close>\<close>

definition current_user_email :: "str_fun \<Rightarrow> session \<Rightarrow> string option" where
  "current_user_email lower s =
     (case auth_user s of
        None \<Rightarrow> None
      | Some u \<Rightarrow> Some (lower (case email u of None \<Rightarrow> [] | Some e \<Rightarrow> e)))"

text \<open>\<^verbatim>\<open>email in ADMIN_EMAILS\<close>; \<^verbatim>\<open>None\<close> is in no list of strings.\<close>

definition is_admin :: "str_fun \<Rightarrow> str_fun \<Rightarrow> string \<Rightarrow> session \<Rightarrow> bool" where
  "is_admin lower strip cfg s =
     (case current_user_email lower s of
        None \<Rightarrow> False
      | Some e \<Rightarrow> e \<in> set (ADMIN_EMAILS lower strip cfg))"

text \<open>The tabs of \<^verbatim>\<open>main\<close>: the Admin tab is there for a signed-in administrator only.\<close>

definition tabs :: "str_fun \<Rightarrow> str_fun \<Rightarrow> string \<Rightarrow> session \<Rightarrow> string list" where
  "tabs lower strip cfg s =
     [''Practice'', ''My Account'']
       @ (if is_logged_in s \<and> is_admin lower strip cfg s then [''Admin''] else [])"

section \<open>Sign-in\<close>

text \<open>
  The identity provider is a parameter: \<open>provider email password\<close> is \<open>Inr\<close> the user of
  the response, or \<open>Inl\<close> the text of the exception that
  \<^verbatim>\<open>sign_in_with_password\<close> (or reading \<^verbatim>\<open>res.user\<close>) raises.
\<close>

type_synonym provider = "string \<Rightarrow> string \<Rightarrow> string + user"

definition sign_in :: "provider \<Rightarrow> string \<Rightarrow> string \<Rightarrow> user option \<times> message list" where
  "sign_in provider em pw =
     (case provider em pw of
        Inr u \<Rightarrow> (Some u, [])
      | Inl e \<Rightarrow> (None, [Error (''Sign-in failed: '' @ e)]))"

text \<open>
  The sign-in form of \<^verbatim>\<open>auth_block\<close> once submitted (\<^verbatim>\<open>if do:\<close>); the returned dict has
  two keys, so \<^verbatim>\<open>if user:\<close> holds exactly when \<^verbatim>\<open>sign_in\<close> returned one.
\<close>

definition auth_block :: "provider \<Rightarrow> string \<Rightarrow> string \<Rightarrow> session \<Rightarrow> session \<times> message list" where
  "auth_block provider em pw s =
     (case sign_in provider em pw of
        (Some u, msgs) \<Rightarrow> (s\<lparr>auth_user := Some u\<rparr>, msgs @ [Success ''Signed in.''])
      | (None, msgs) \<Rightarrow> (s, msgs))"

definition sign_out :: "session \<Rightarrow> session" where
  "sign_out s = s\<lparr>auth_user := None, quiz_index := 0, quiz_score := 0, responses := Map.empty\<rparr>"

section \<open>Item bank loader (\<^verbatim>\<open>load_items\<close>, app.py lines 54-70)\<close>

text \<open>
  A \<^verbatim>\<open>pandas.DataFrame\<close>: the column labels and the rows in order. \<^verbatim>\<open>df.empty\<close> holds
  when either axis has length zero.
\<close>

record 'r frame =
  columns :: "string list"
  rows :: "'r list"

definition df_empty :: "'r frame \<Rightarrow> bool" where
  "df_empty df = (rows df = [] \<or> columns df = [])"

definition item_columns :: "string list" where
  "item_columns =
     [''case_id'', ''domain'', ''sub_specialty'', ''topic'', ''question'', ''options'',
      ''correct_answer'', ''explanation'', ''guideline_reference'']"

text \<open>
  What the path leads to: nothing (\<^verbatim>\<open>exists()\<close> is false), something that exists but
  that \<^verbatim>\<open>open\<close> rejects with an \<^verbatim>\<open>OSError\<close> (a directory, a file without read
  permission), or a text file with its decoded lines.
\<close>

datatype fs_entry = Absent | Unreadable | File "string list"

text \<open>
  \<^verbatim>\<open>json.loads\<close> is a parameter. The dataset holds one JSON object per line, so the
  parameter yields the pairs of the object, and \<open>None\<close> where \<^verbatim>\<open>json.loads\<close> raises.
\<close>

type_synonym loads = "string \<Rightarrow> (string \<times> pyval) list option"

text \<open>The loop over the lines of the file; the first line that does not parse raises.\<close>

fun read_rows :: "str_fun \<Rightarrow> loads \<Rightarrow> string list \<Rightarrow> py_error + (string \<times> pyval) list list" where
  "read_rows strip ld [] = Inr []"
| "read_rows strip ld (line # ls) =
     (if strip line = [] then read_rows strip ld ls
      else (case ld line of
              None \<Rightarrow> Inl JSONDecodeError
            | Some r \<Rightarrow>
                (case read_rows strip ld ls of Inl e \<Rightarrow> Inl e | Inr rs \<Rightarrow> Inr (r # rs))))"

text \<open>
  \<^verbatim>\<open>pd.DataFrame(rows)\<close> for a list of dicts: the columns are the keys in the order they
  are first seen, and a record without a column gets \<open>PNaN\<close> there.
\<close>

definition DataFrame :: "(string \<times> pyval) list list \<Rightarrow> (string \<times> pyval) list frame" where
  "DataFrame rs =
     (let cols = rev (remdups (rev (concat (map (map fst) rs))))
      in \<lparr>columns = cols,
          rows = map (\<lambda>r. map (\<lambda>c. (c, case map_of r c of None \<Rightarrow> PNaN | Some v \<Rightarrow> v)) cols) rs\<rparr>)"

text \<open>\<^verbatim>\<open>df["options"] = df["options"].apply(...)\<close>\<close>

definition apply_options :: "(string \<times> pyval) list frame \<Rightarrow> (string \<times> pyval) list frame" where
  "apply_options df =
     df\<lparr>rows := map (map (\<lambda>(c, v). if c = ''options'' then (c, normalize_options v) else (c, v)))
                   (rows df)\<rparr>"

definition load_items ::
  "str_fun \<Rightarrow> loads \<Rightarrow> string \<Rightarrow> fs_entry
     \<Rightarrow> (py_error + (string \<times> pyval) list frame) \<times> message list" where
  "load_items strip ld jsonl_path entry =
     (case entry of
        Absent \<Rightarrow>
          (Inr \<lparr>columns = item_columns, rows = []\<rparr>,
           [Warning (''Question bank not found at `'' @ jsonl_path @ ''`. Using empty dataset.'')])
      | Unreadable \<Rightarrow> (Inl OSError, [])
      | File ls \<Rightarrow>
          (case read_rows strip ld ls of
             Inl e \<Rightarrow> (Inl e, [])
           | Inr rs \<Rightarrow>
               (let df = DataFrame rs
                in (Inr (if ''options'' \<in> set (columns df) then apply_options df else df), []))))"

section \<open>Quiz player (\<^verbatim>\<open>mcq_player\<close>, app.py lines 237-322)\<close>

text \<open>
  A row of the bank as the player reads it, its cells typed as the dataset's schema types
  them: \<open>domain\<close> and \<open>sub_specialty\<close> are \<open>None\<close> where the value is missing,
  \<open>options\<close> is the dict of the record, \<open>explanation\<close> is the dict with its
  \<^verbatim>\<open>rationale\<close> and its list \<^verbatim>\<open>why_others_incorrect\<close>, and \<open>guideline_reference\<close> is a
  list of strings. The loader above keeps the cells as it finds them; the player is
  modelled on frames whose rows follow the schema.
\<close>

record item =
  case_id :: string
  domain :: "string option"
  sub_specialty :: "string option"
  topic :: string
  question :: string
  options :: "(string \<times> string) list"
  correct_answer :: string
  explanation :: "string \<times> string list"
  guideline_reference :: "string list"

text \<open>
  One run of the script handles at most one button; \<open>Submit choice\<close> carries the value
  of the radio widget, one of the keys of \<open>order_opts (options row)\<close>, or \<open>None\<close> when
  there is none.
\<close>

datatype click = NoClick | Submit "string option" | Previous | Next

text \<open>Lines 249-253: the view is filtered from a copy of the whole frame.\<close>

definition filtered_view :: "item frame \<Rightarrow> string \<Rightarrow> string \<Rightarrow> item list" where
  "filtered_view df dom_choice sub_choice =
     (let filtered = rows df;
          filtered = (if dom_choice \<noteq> ''All''
                      then filter (\<lambda>r. domain r = Some dom_choice) filtered else filtered);
          filtered = (if sub_choice \<noteq> ''All''
                      then filter (\<lambda>r. sub_specialty r = Some sub_choice) filtered else filtered)
      in filtered)"

text \<open>\<^verbatim>\<open>filtered.iloc[idx]\<close>: a negative position counts from the end.\<close>

definition iloc :: "'a list \<Rightarrow> int \<Rightarrow> py_error + 'a" where
  "iloc xs i =
     (if i \<ge> int (length xs) \<or> i < - int (length xs) then Inl IndexError
      else if i < 0 then Inr (xs ! nat (int (length xs) + i))
      else Inr (xs ! nat i))"

text \<open>
  Lines 280-294, the three buttons: \<open>row\<close> is the item on the page, \<open>idx\<close> its
  position in the view \<open>filtered\<close>.
\<close>

definition buttons :: "item list \<Rightarrow> int \<Rightarrow> item \<Rightarrow> click \<Rightarrow> session \<Rightarrow> session" where
  "buttons filtered idx row ev s =
     (case ev of
        NoClick \<Rightarrow> s
      | Submit choice \<Rightarrow>
          (let s = s\<lparr>responses := (responses s)(case_id row \<mapsto> choice)\<rparr>
           in if choice = Some (correct_answer row)
              then s\<lparr>quiz_score := quiz_score s + 1\<rparr> else s)
      | Previous \<Rightarrow> s\<lparr>quiz_index := max 0 (idx - 1)\<rparr>
      | Next \<Rightarrow> s\<lparr>quiz_index := min (int (length filtered) - 1) (idx + 1)\<rparr>)"

text \<open>
  One run of \<^verbatim>\<open>mcq_player\<close> on the session: the state it leaves in
  \<^verbatim>\<open>st.session_state\<close>. What it draws on the page is not modelled: the feedback block
  (lines 297-322) reads the session and the row and writes nothing, and on a row of the
  types above (a dict for the explanation, lists to iterate over) it does not raise.
\<close>

definition mcq_player :: "item frame \<Rightarrow> string \<Rightarrow> string \<Rightarrow> click \<Rightarrow> session \<Rightarrow> py_error + session" where
  "mcq_player df dom_choice sub_choice ev s =
     (if df_empty df then Inr s
      else
        let filtered = filtered_view df dom_choice sub_choice;
            idx = quiz_index s;
            out = (idx \<ge> int (length filtered));
            idx = (if out then 0 else idx);
            s = (if out then s\<lparr>quiz_index := 0\<rparr> else s)
        in if length filtered = 0 then Inr s
           else (case iloc filtered idx of
                   Inl e \<Rightarrow> Inl e
                 | Inr row \<Rightarrow> Inr (buttons filtered idx row ev s)))"

text \<open>Successive runs of the script, one per click, on the same bank and filter choice.\<close>

fun script_runs :: "item frame \<Rightarrow> string \<Rightarrow> string \<Rightarrow> click list \<Rightarrow> session \<Rightarrow> py_error + session" where
  "script_runs df dom_choice sub_choice [] s = Inr s"
| "script_runs df dom_choice sub_choice (ev # evs) s =
     (case mcq_player df dom_choice sub_choice ev s of
        Inl e \<Rightarrow> Inl e
      | Inr s' \<Rightarrow> script_runs df dom_choice sub_choice evs s')"

text \<open>
  The view over a history of filter choices, one run per choice. Each run starts from
  \<^verbatim>\<open>df.copy()\<close> (line 249): the view of the run before is at hand in no variable and
  in no key of the session. Before any choice both select boxes show \<^verbatim>\<open>"All"\<close>.
\<close>

definition render_view :: "item frame \<Rightarrow> item list \<Rightarrow> string \<times> string \<Rightarrow> item list" where
  "render_view df previous choice = filtered_view df (fst choice) (snd choice)"

definition views :: "item frame \<Rightarrow> (string \<times> string) list \<Rightarrow> item list" where
  "views df history = foldl (render_view df) (filtered_view df ''All'' ''All'') history"

section \<open>Sample data\<close>

text \<open>A bank of four items in two domains, a session with a signed-in user, and stand-ins for the
  two external collaborators: \<^verbatim>\<open>json.loads\<close> on the one line it is given here (any other
  line raises), and a provider that rejects every sign-in.\<close>

definition sample_item :: "string \<Rightarrow> string \<Rightarrow> string \<Rightarrow> item" where
  "sample_item cid dm ans =
     \<lparr>case_id = cid, domain = Some dm, sub_specialty = Some ''General'', topic = ''Topic'',
      question = ''Question'', options = [(''B'', ''second''), (''A'', ''first'')],
      correct_answer = ans, explanation = (''Rationale'', []), guideline_reference = []\<rparr>"

definition sample_bank :: "item frame" where
  "sample_bank =
     \<lparr>columns = item_columns,
      rows = [sample_item ''C1'' ''Cardio'' ''A'', sample_item ''C2'' ''Cardio'' ''B'',
              sample_item ''C3'' ''Resp'' ''A'', sample_item ''C4'' ''Resp'' ''B'']\<rparr>"

definition signed_in :: session where
  "signed_in = init_session\<lparr>auth_user := Some \<lparr>email = Some ''Admin@X.com'', user_id = ''u1''\<rparr>\<rparr>"

definition sample_line :: string where
  \<open>sample_line = ''{"case_id": "C1", "options": {"B": "second", "A": "first", "D": "fourth"}}''\<close>

definition sample_loads :: loads where
  "sample_loads line =
     (if ascii_strip line = sample_line then
        Some [(''case_id'', PStr ''C1''),
              (''options'', PDict [(''B'', PStr ''second''), (''A'', PStr ''first''),
                                   (''D'', PStr ''fourth'')])]
      else None)"

definition rejecting_provider :: provider where
  "rejecting_provider em pw = Inl ''Invalid login credentials''"

section \<open>Properties of option normalisation\<close>

lemma pick_keys:
  "map fst (concat (map (\<lambda>k. case map_of d k of None \<Rightarrow> [] | Some v \<Rightarrow> [(k, v)]) ks))
     = filter (\<lambda>k. k \<in> fst ` set d) ks"
  by (induction ks) (auto simp: dom_map_of_conv_image_fst [symmetric] split: option.split)

lemma pick_set:
  "set (concat (map (\<lambda>k. case map_of d k of None \<Rightarrow> [] | Some v \<Rightarrow> [(k, v)]) ks))
     = {(k, v). k \<in> set ks \<and> map_of d k = Some v}"
  by (induction ks) (auto split: option.splits)

lemma order_opts_keys:
  "map fst (order_opts d) = filter (\<lambda>k. k \<in> fst ` set d) opt_keys"
  unfolding order_opts_def by (rule pick_keys)

lemma set_order_opts:
  "set (order_opts d) = {(k, v). k \<in> set opt_keys \<and> map_of d k = Some v}"
  unfolding order_opts_def by (rule pick_set)

lemma distinct_order_opts: "distinct (map fst (order_opts d))"
  by (simp add: order_opts_keys opt_keys_def)

lemma map_of_order_opts:
  "map_of (order_opts d) k = (if k \<in> set opt_keys then map_of d k else None)"
proof (cases "map_of (order_opts d) k")
  case None
  then have "k \<notin> fst ` set (order_opts d)" by (simp add: map_of_eq_None_iff)
  then have "\<not> (k \<in> set opt_keys \<and> map_of d k \<noteq> None)"
    by (force simp: set_order_opts)
  with None show ?thesis by auto
next
  case (Some v)
  then have "(k, v) \<in> set (order_opts d)" by (rule map_of_SomeD)
  then have "k \<in> set opt_keys \<and> map_of d k = Some v" by (simp add: set_order_opts)
  with Some show ?thesis by simp
qed

section \<open>Properties of the quiz player\<close>

lemma iloc_in_range: "0 \<le> i \<Longrightarrow> i < int (length xs) \<Longrightarrow> iloc xs i = Inr (xs ! nat i)"
  by (simp add: iloc_def)

lemma mcq_player_in_range:
  assumes "\<not> df_empty df" "0 \<le> quiz_index s"
    "quiz_index s < int (length (filtered_view df dc sc))"
  shows "mcq_player df dc sc ev s =
           Inr (buttons (filtered_view df dc sc) (quiz_index s)
                  (filtered_view df dc sc ! nat (quiz_index s)) ev s)"
proof -
  have "filtered_view df dc sc \<noteq> []" using assms(2,3) by auto
  then show ?thesis using assms by (simp add: mcq_player_def Let_def iloc_in_range)
qed

lemma mcq_player_out_of_range:
  assumes "\<not> df_empty df" "int (length (filtered_view df dc sc)) \<le> quiz_index s"
    "filtered_view df dc sc \<noteq> []"
  shows "mcq_player df dc sc ev s =
           Inr (buttons (filtered_view df dc sc) 0 (filtered_view df dc sc ! 0) ev
                  (s\<lparr>quiz_index := 0\<rparr>))"
  using assms by (simp add: mcq_player_def Let_def iloc_in_range)

lemma mcq_player_empty_view:
  assumes "\<not> df_empty df" "filtered_view df dc sc = []" "0 \<le> quiz_index s"
  shows "mcq_player df dc sc ev s = Inr (s\<lparr>quiz_index := 0\<rparr>)"
  using assms by (simp add: mcq_player_def Let_def)

lemma buttons_frame:
  "ev = Next \<or> ev = Previous \<or> ev = NoClick \<Longrightarrow>
     responses (buttons f i r ev s) = responses s \<and>
     quiz_score (buttons f i r ev s) = quiz_score s \<and>
     auth_user (buttons f i r ev s) = auth_user s"
  by (auto simp: buttons_def)

lemma buttons_index_range:
  assumes "0 \<le> i" "i < int (length f)" "quiz_index s = i"
  shows "0 \<le> quiz_index (buttons f i r ev s) \<and> quiz_index (buttons f i r ev s) < int (length f)"
  using assms by (cases ev) (auto simp: buttons_def Let_def)

lemma next_runs:
  assumes "\<not> df_empty df" "0 \<le> quiz_index s"
    "quiz_index s < int (length (filtered_view df dc sc))"
  shows "script_runs df dc sc (replicate k Next) s =
           Inr (s\<lparr>quiz_index := min (int (length (filtered_view df dc sc)) - 1) (quiz_index s + int k)\<rparr>)"
  using assms
proof (induction k arbitrary: s)
  case 0
  then show ?case by simp
next
  case (Suc k)
  let ?N = "int (length (filtered_view df dc sc))"
  let ?s1 = "s\<lparr>quiz_index := min (?N - 1) (quiz_index s + 1)\<rparr>"
  have run: "mcq_player df dc sc Next s = Inr ?s1"
    using Suc.prems by (simp add: mcq_player_in_range buttons_def)
  have "script_runs df dc sc (replicate k Next) ?s1 =
          Inr (?s1\<lparr>quiz_index := min (?N - 1) (quiz_index ?s1 + int k)\<rparr>)"
    using Suc.prems by (intro Suc.IH) auto
  moreover have "min (?N - 1) (min (?N - 1) (quiz_index s + 1) + int k)
                   = min (?N - 1) (quiz_index s + int (Suc k))"
    by auto
  ultimately show ?case using run by simp
qed

lemma previous_runs:
  assumes "\<not> df_empty df" "0 \<le> quiz_index s"
    "quiz_index s < int (length (filtered_view df dc sc))"
  shows "script_runs df dc sc (replicate k Previous) s =
           Inr (s\<lparr>quiz_index := max 0 (quiz_index s - int k)\<rparr>)"
  using assms
proof (induction k arbitrary: s)
  case 0
  then show ?case by simp
next
  case (Suc k)
  let ?s1 = "s\<lparr>quiz_index := max 0 (quiz_index s - 1)\<rparr>"
  have run: "mcq_player df dc sc Previous s = Inr ?s1"
    using Suc.prems by (simp add: mcq_player_in_range buttons_def)
  have "script_runs df dc sc (replicate k Previous) ?s1 =
          Inr (?s1\<lparr>quiz_index := max 0 (quiz_index ?s1 - int k)\<rparr>)"
    using Suc.prems by (intro Suc.IH) auto
  moreover have "max 0 (max 0 (quiz_index s - 1) - int k) = max 0 (quiz_index s - int (Suc k))"
    by auto
  ultimately show ?case using run by simp
qed

lemma sample_bank_not_empty: "\<not> df_empty sample_bank"
  by (simp add: df_empty_def sample_bank_def item_columns_def)

lemma sample_view_all:
  "filtered_view sample_bank ''All'' ''All'' = rows sample_bank"
  by (simp add: filtered_view_def)

lemma sample_view_cardio:
  "filtered_view sample_bank ''Cardio'' ''All'' =
     [sample_item ''C1'' ''Cardio'' ''A'', sample_item ''C2'' ''Cardio'' ''B'']"
  by (simp add: filtered_view_def sample_bank_def sample_item_def)

section \<open>Navigation\<close>

text \<open>
  Claim C3. On a non-empty view of length \<open>N\<close> and a cursor in \<open>[0, N)\<close>, a run with
  Next leaves the cursor at \<open>min (N - 1) (cursor + 1)\<close> and a run with Previous leaves it
  at \<open>max 0 (cursor - 1)\<close>. After \<open>k\<close> runs with Next the cursor is
  \<open>min (N - 1) (cursor + k)\<close>, after \<open>k\<close> runs with Previous it is
  \<open>max 0 (cursor - k)\<close>; so from \<open>k = N\<close> on, Next stays at \<open>N - 1\<close> and Previous
  stays at \<open>0\<close>. Nothing else of the session changes.
\<close>

theorem navigation_clamps:
  assumes "\<not> df_empty df" "0 \<le> quiz_index s"
    "quiz_index s < int (length (filtered_view df dc sc))"
  shows "mcq_player df dc sc Next s =
           Inr (s\<lparr>quiz_index := min (int (length (filtered_view df dc sc)) - 1) (quiz_index s + 1)\<rparr>)
       \<and> mcq_player df dc sc Previous s = Inr (s\<lparr>quiz_index := max 0 (quiz_index s - 1)\<rparr>)
       \<and> script_runs df dc sc (replicate k Next) s =
           Inr (s\<lparr>quiz_index := min (int (length (filtered_view df dc sc)) - 1) (quiz_index s + int k)\<rparr>)
       \<and> script_runs df dc sc (replicate k Previous) s =
           Inr (s\<lparr>quiz_index := max 0 (quiz_index s - int k)\<rparr>)
       \<and> (length (filtered_view df dc sc) \<le> k \<longrightarrow>
            script_runs df dc sc (replicate k Next) s =
              Inr (s\<lparr>quiz_index := int (length (filtered_view df dc sc)) - 1\<rparr>)
          \<and> script_runs df dc sc (replicate k Previous) s = Inr (s\<lparr>quiz_index := 0\<rparr>))"
proof -
  let ?N = "int (length (filtered_view df dc sc))"
  have nx: "mcq_player df dc sc Next s = Inr (s\<lparr>quiz_index := min (?N - 1) (quiz_index s + 1)\<rparr>)"
    using assms by (simp add: mcq_player_in_range buttons_def)
  have pv: "mcq_player df dc sc Previous s = Inr (s\<lparr>quiz_index := max 0 (quiz_index s - 1)\<rparr>)"
    using assms by (simp add: mcq_player_in_range buttons_def)
  have nxs: "script_runs df dc sc (replicate k Next) s =
           Inr (s\<lparr>quiz_index := min (?N - 1) (quiz_index s + int k)\<rparr>)"
    using assms by (rule next_runs)
  have pvs: "script_runs df dc sc (replicate k Previous) s =
           Inr (s\<lparr>quiz_index := max 0 (quiz_index s - int k)\<rparr>)"
    using assms by (rule previous_runs)
  have sat: "length (filtered_view df dc sc) \<le> k \<longrightarrow>
            script_runs df dc sc (replicate k Next) s = Inr (s\<lparr>quiz_index := ?N - 1\<rparr>)
          \<and> script_runs df dc sc (replicate k Previous) s = Inr (s\<lparr>quiz_index := 0\<rparr>)"
  proof
    assume k: "length (filtered_view df dc sc) \<le> k"
    then have "?N \<le> int k" by simp
    with assms(2,3) have "min (?N - 1) (quiz_index s + int k) = ?N - 1"
      and "max 0 (quiz_index s - int k) = 0" by auto
    with nxs pvs show "script_runs df dc sc (replicate k Next) s = Inr (s\<lparr>quiz_index := ?N - 1\<rparr>)
          \<and> script_runs df dc sc (replicate k Previous) s = Inr (s\<lparr>quiz_index := 0\<rparr>)"
      by simp
  qed
  from nx pv nxs pvs sat show ?thesis by blast
qed

theorem navigation_clamps_witness:
  "\<not> df_empty sample_bank \<and> 0 \<le> quiz_index (signed_in\<lparr>quiz_index := 1\<rparr>)
   \<and> quiz_index (signed_in\<lparr>quiz_index := 1\<rparr>) < int (length (filtered_view sample_bank ''Cardio'' ''All''))
   \<and> mcq_player sample_bank ''Cardio'' ''All'' Next (signed_in\<lparr>quiz_index := 1\<rparr>) = Inr (signed_in\<lparr>quiz_index := 1\<rparr>)
   \<and> mcq_player sample_bank ''Cardio'' ''All'' Previous (signed_in\<lparr>quiz_index := 1\<rparr>) = Inr (signed_in\<lparr>quiz_index := 0\<rparr>)
   \<and> length (filtered_view sample_bank ''Cardio'' ''All'') \<le> 5
   \<and> script_runs sample_bank ''Cardio'' ''All'' (replicate 5 Next) (signed_in\<lparr>quiz_index := 1\<rparr>) = Inr (signed_in\<lparr>quiz_index := 1\<rparr>)
   \<and> script_runs sample_bank ''Cardio'' ''All'' (replicate 5 Previous) (signed_in\<lparr>quiz_index := 1\<rparr>) = Inr (signed_in\<lparr>quiz_index := 0\<rparr>)"
proof -
  let ?s = "signed_in\<lparr>quiz_index := 1\<rparr>"
  have h1: "\<not> df_empty sample_bank" by (rule sample_bank_not_empty)
  have h2: "0 \<le> quiz_index ?s" by simp
  have h3: "quiz_index ?s < int (length (filtered_view sample_bank ''Cardio'' ''All''))"
    by (simp add: sample_view_cardio)
  show ?thesis
    using h1 h2 h3 navigation_clamps [OF h1 h2 h3, of 5]
    by (simp add: sample_view_cardio)
qed

text \<open>
  Claim C9. On a non-empty view, from a cursor in range and strictly before the last
  position, a run with Next moves the cursor one item on and a run with Previous then
  leaves the whole session as it was before the two runs (also with the reruns that
  \<^verbatim>\<open>st.rerun()\<close> causes in between): same item, same responses, same score. In any
  session, a run with Next or Previous that returns leaves the responses, the score and
  the signed-in user untouched.
\<close>

theorem next_then_previous_restores:
  assumes "\<not> df_empty df" "0 \<le> quiz_index s"
    "quiz_index s < int (length (filtered_view df dc sc)) - 1"
  shows "mcq_player df dc sc Next s = Inr (s\<lparr>quiz_index := quiz_index s + 1\<rparr>)
       \<and> mcq_player df dc sc Previous (s\<lparr>quiz_index := quiz_index s + 1\<rparr>) = Inr s
       \<and> script_runs df dc sc [Next, Previous] s = Inr s
       \<and> script_runs df dc sc [Next, NoClick, Previous, NoClick] s = Inr s
       \<and> (\<forall>t t'. (mcq_player df dc sc Next t = Inr t' \<or> mcq_player df dc sc Previous t = Inr t')
             \<longrightarrow> responses t' = responses t \<and> quiz_score t' = quiz_score t
                 \<and> auth_user t' = auth_user t)"
proof -
  let ?s1 = "s\<lparr>quiz_index := quiz_index s + 1\<rparr>"
  have nx: "mcq_player df dc sc Next s = Inr ?s1"
    using assms by (simp add: mcq_player_in_range buttons_def)
  have pv: "mcq_player df dc sc Previous ?s1 = Inr s"
    using assms by (simp add: mcq_player_in_range buttons_def)
  have n1: "mcq_player df dc sc NoClick ?s1 = Inr ?s1"
    using assms by (simp add: mcq_player_in_range buttons_def)
  have n0: "mcq_player df dc sc NoClick s = Inr s"
    using assms by (simp add: mcq_player_in_range buttons_def)
  have fr: "\<forall>t t'. (mcq_player df dc sc Next t = Inr t' \<or> mcq_player df dc sc Previous t = Inr t')
             \<longrightarrow> responses t' = responses t \<and> quiz_score t' = quiz_score t
                 \<and> auth_user t' = auth_user t"
    using assms(1)
    by (auto simp: mcq_player_def Let_def buttons_def split: if_splits sum.splits)
  from nx pv n1 n0 fr show ?thesis by simp
qed

theorem next_then_previous_restores_witness:
  "\<not> df_empty sample_bank \<and> 0 \<le> quiz_index signed_in
   \<and> quiz_index signed_in < int (length (filtered_view sample_bank ''Cardio'' ''All'')) - 1
   \<and> mcq_player sample_bank ''Cardio'' ''All'' Next signed_in = Inr (signed_in\<lparr>quiz_index := 1\<rparr>)
   \<and> mcq_player sample_bank ''Cardio'' ''All'' Previous (signed_in\<lparr>quiz_index := 1\<rparr>) = Inr signed_in
   \<and> script_runs sample_bank ''Cardio'' ''All'' [Next, Previous] signed_in = Inr signed_in"
proof -
  have q: "quiz_index signed_in = 0" by (simp add: signed_in_def init_session_def)
  have h1: "\<not> df_empty sample_bank" by (rule sample_bank_not_empty)
  have h2: "0 \<le> quiz_index signed_in" by (simp add: q)
  have h3: "quiz_index signed_in < int (length (filtered_view sample_bank ''Cardio'' ''All'')) - 1"
    by (simp add: q sample_view_cardio)
  show ?thesis
    using h1 h2 h3 next_then_previous_restores [OF h1 h2 h3]
    by (simp add: q)
qed

section \<open>Cursor after a filter change\<close>

text \<open>
  Claim C4. A run of the player on a non-empty bank, under any filter choice and with any
  click, from a session whose cursor is not negative, returns a session whose cursor is
  not negative and, when the view is not empty, lies below the length of the view. When
  the stored cursor is at or beyond the length of the new view (the empty view included),
  the run sets it to 0, and the item the buttons act on is the one at position 0 of the
  view. A fresh session has cursor 0, so every session the player reaches has a cursor
  that is not negative.
\<close>

theorem filter_change_cursor_in_range:
  assumes "\<not> df_empty df" "0 \<le> quiz_index s"
  shows "\<exists>s'. mcq_player df dc sc ev s = Inr s'
          \<and> 0 \<le> quiz_index s'
          \<and> (filtered_view df dc sc \<noteq> [] \<longrightarrow> quiz_index s' < int (length (filtered_view df dc sc)))
          \<and> (int (length (filtered_view df dc sc)) \<le> quiz_index s \<longrightarrow>
                mcq_player df dc sc NoClick s = Inr (s\<lparr>quiz_index := 0\<rparr>)
              \<and> (filtered_view df dc sc \<noteq> [] \<longrightarrow>
                   mcq_player df dc sc ev s =
                     Inr (buttons (filtered_view df dc sc) 0 (filtered_view df dc sc ! 0) ev
                            (s\<lparr>quiz_index := 0\<rparr>))))"
proof -
  let ?v = "filtered_view df dc sc"
  consider (empty) "?v = []" | (out) "?v \<noteq> []" "int (length ?v) \<le> quiz_index s"
    | (inr) "quiz_index s < int (length ?v)" by fastforce
  then show ?thesis
  proof cases
    case empty
    then show ?thesis using assms by (simp add: mcq_player_empty_view)
  next
    case out
    have "0 \<le> quiz_index (buttons ?v 0 (?v ! 0) ev (s\<lparr>quiz_index := 0\<rparr>))
        \<and> quiz_index (buttons ?v 0 (?v ! 0) ev (s\<lparr>quiz_index := 0\<rparr>)) < int (length ?v)"
      using out(1) by (intro buttons_index_range) auto
    moreover have "mcq_player df dc sc NoClick s = Inr (s\<lparr>quiz_index := 0\<rparr>)"
      using assms(1) out by (simp add: mcq_player_out_of_range buttons_def)
    ultimately show ?thesis
      using assms(1) out by (simp add: mcq_player_out_of_range)
  next
    case inr
    have "0 \<le> quiz_index (buttons ?v (quiz_index s) (?v ! nat (quiz_index s)) ev s)
        \<and> quiz_index (buttons ?v (quiz_index s) (?v ! nat (quiz_index s)) ev s) < int (length ?v)"
      using assms(2) inr by (intro buttons_index_range) auto
    then show ?thesis
      using assms inr by (simp add: mcq_player_in_range)
  qed
qed

theorem filter_change_cursor_in_range_witness:
  "\<not> df_empty sample_bank \<and> 0 \<le> quiz_index (signed_in\<lparr>quiz_index := 3\<rparr>)
   \<and> mcq_player sample_bank ''All'' ''All'' NoClick (signed_in\<lparr>quiz_index := 3\<rparr>)
        = Inr (signed_in\<lparr>quiz_index := 3\<rparr>)
   \<and> length (filtered_view sample_bank ''Cardio'' ''All'') = 2
   \<and> int (length (filtered_view sample_bank ''Cardio'' ''All'')) \<le> quiz_index (signed_in\<lparr>quiz_index := 3\<rparr>)
   \<and> mcq_player sample_bank ''Cardio'' ''All'' NoClick (signed_in\<lparr>quiz_index := 3\<rparr>)
        = Inr (signed_in\<lparr>quiz_index := 0\<rparr>)"
proof -
  let ?s = "signed_in\<lparr>quiz_index := 3\<rparr>"
  have h1: "\<not> df_empty sample_bank" by (rule sample_bank_not_empty)
  have h2: "0 \<le> quiz_index ?s" by simp
  have len: "length (filtered_view sample_bank ''All'' ''All'') = 4"
    unfolding sample_view_all by (simp add: sample_bank_def)
  have all: "mcq_player sample_bank ''All'' ''All'' NoClick ?s = Inr ?s"
    using h1 len by (simp add: mcq_player_in_range buttons_def)
  show ?thesis
    using h1 h2 all filter_change_cursor_in_range [OF h1 h2, of "''Cardio''" "''All''" NoClick]
    by (auto simp: sample_view_cardio)
qed

section \<open>Scoring\<close>

text \<open>
  Claim C1, evaluated on the code. The signed-in user is on item \<open>C1\<close> of the sample
  bank, whose correct answer is \<open>A\<close>. The first Submit of \<open>A\<close> records the response and
  takes the score from 0 to 1; a second Submit of \<open>A\<close> for the same item leaves the
  recorded response as it is and takes the score to 2.
\<close>

theorem resubmission_counts_twice:
  "mcq_player sample_bank ''All'' ''All'' (Submit (Some ''A'')) signed_in =
     Inr (signed_in\<lparr>responses := [''C1'' \<mapsto> Some ''A''], quiz_score := 1\<rparr>)
   \<and> mcq_player sample_bank ''All'' ''All'' (Submit (Some ''A''))
        (signed_in\<lparr>responses := [''C1'' \<mapsto> Some ''A''], quiz_score := 1\<rparr>) =
     Inr (signed_in\<lparr>responses := [''C1'' \<mapsto> Some ''A''], quiz_score := 2\<rparr>)
   \<and> script_runs sample_bank ''All'' ''All'' [Submit (Some ''A''), Submit (Some ''A'')] signed_in =
     Inr (signed_in\<lparr>responses := [''C1'' \<mapsto> Some ''A''], quiz_score := 2\<rparr>)"
proof -
  have q: "quiz_index signed_in = 0" "quiz_score signed_in = 0" "responses signed_in = Map.empty"
    by (simp_all add: signed_in_def init_session_def)
  have v: "filtered_view sample_bank ''All'' ''All'' ! 0 = sample_item ''C1'' ''Cardio'' ''A''"
    "length (filtered_view sample_bank ''All'' ''All'') = 4"
    unfolding sample_view_all by (simp_all add: sample_bank_def)
  have c: "case_id (sample_item ''C1'' ''Cardio'' ''A'') = ''C1''"
    "correct_answer (sample_item ''C1'' ''Cardio'' ''A'') = ''A''"
    by (simp_all add: sample_item_def)
  let ?s1 = "signed_in\<lparr>responses := [''C1'' \<mapsto> Some ''A''], quiz_score := 1\<rparr>"
  have r1: "mcq_player sample_bank ''All'' ''All'' (Submit (Some ''A'')) signed_in = Inr ?s1"
    using sample_bank_not_empty
    by (simp add: mcq_player_in_range q v c buttons_def Let_def)
  have r2: "mcq_player sample_bank ''All'' ''All'' (Submit (Some ''A'')) ?s1 =
     Inr (signed_in\<lparr>responses := [''C1'' \<mapsto> Some ''A''], quiz_score := 2\<rparr>)"
    using sample_bank_not_empty
    by (simp add: mcq_player_in_range q v c buttons_def Let_def)
  from r1 r2 show ?thesis by simp
qed

section \<open>Filtering\<close>

lemma views_last: "views df (history @ [(d, c)]) = filtered_view df d c"
  by (simp add: views_def render_view_def)

text \<open>
  Claim C5. The view is the rows of the whole bank, in bank order, whose domain equals the
  domain choice (any domain when the choice is \<open>All\<close>) and whose sub-specialty equals
  the sub-specialty choice (any when it is \<open>All\<close>), by equality of strings. After any
  history of filter choices that ends with a pair, the view is the view of that pair, so
  two histories that end with the same pair give the same view.
\<close>

theorem filtered_view_deterministic:
  "filtered_view df dom_choice sub_choice =
     filter (\<lambda>r. (dom_choice = ''All'' \<or> domain r = Some dom_choice)
               \<and> (sub_choice = ''All'' \<or> sub_specialty r = Some sub_choice)) (rows df)
   \<and> views df (history @ [(dom_choice, sub_choice)]) = filtered_view df dom_choice sub_choice
   \<and> views df (history @ [(dom_choice, sub_choice)]) = views df (other @ [(dom_choice, sub_choice)])"
proof -
  have "filtered_view df dom_choice sub_choice =
     filter (\<lambda>r. (dom_choice = ''All'' \<or> domain r = Some dom_choice)
               \<and> (sub_choice = ''All'' \<or> sub_specialty r = Some sub_choice)) (rows df)"
    by (simp add: filtered_view_def Let_def conj_commute)
  then show ?thesis by (simp add: views_last)
qed

section \<open>Authorization\<close>

lemma lower_char_idem: "lower_char (lower_char c) = lower_char c"
  by (simp add: lower_char_def)

lemma ascii_lower_idem: "ascii_lower (ascii_lower s) = ascii_lower s"
  by (simp add: ascii_lower_def lower_char_idem)

lemma ADMIN_EMAILS_lower:
  assumes "\<And>x. lower (lower x) = lower x" and "a \<in> set (ADMIN_EMAILS lower strip cfg)"
  shows "lower a = a"
  using assms by (auto simp: ADMIN_EMAILS_def)

lemma lower_mixed: "ascii_lower ''Admin@X.com'' = ''admin@x.com''"
  by code_simp

lemma ADMIN_EMAILS_one: "ADMIN_EMAILS ascii_lower ascii_strip ''admin@x.com'' = [''admin@x.com'']"
  by code_simp

lemma ADMIN_EMAILS_two:
  "ADMIN_EMAILS ascii_lower ascii_strip '' Admin@X.com , ,Lead@y.org''
     = [''admin@x.com'', ''lead@y.org'']"
  by code_simp

lemma lower_plain: "ascii_lower ''admin@x.com'' = ''admin@x.com''"
  by code_simp

lemma lower_other: "ascii_lower ''other@x.com'' = ''other@x.com''"
  by code_simp

text \<open>
  Claim C7. Whatever \<^verbatim>\<open>str.strip\<close> does, and for a \<^verbatim>\<open>str.lower\<close> of which the one
  fact used is that lower-casing a lower-cased string changes nothing: for a signed-in
  user, \<open>is_admin\<close> holds exactly when the lower-cased email (the empty string when the
  provider gave none) is one of the configured administrator emails; every configured
  email is stored lower-cased, so two emails with the same lower-casing get the same
  answer. The Admin tab is shown exactly to a signed-in administrator; any other signed-in
  user is a trainee.
\<close>

theorem admin_iff_lowercased_member:
  assumes "\<And>x. lower (lower x) = lower x"
  shows "is_admin lower strip cfg (s\<lparr>auth_user := Some u\<rparr>) =
     (lower (case email u of None \<Rightarrow> [] | Some e \<Rightarrow> e) \<in> set (ADMIN_EMAILS lower strip cfg))
   \<and> (\<forall>a \<in> set (ADMIN_EMAILS lower strip cfg). lower a = a)
   \<and> (lower e1 = lower e2 \<longrightarrow>
        is_admin lower strip cfg (s\<lparr>auth_user := Some \<lparr>email = Some e1, user_id = i1\<rparr>\<rparr>) =
        is_admin lower strip cfg (s\<lparr>auth_user := Some \<lparr>email = Some e2, user_id = i2\<rparr>\<rparr>))
   \<and> (''Admin'' \<in> set (tabs lower strip cfg s)) = (is_logged_in s \<and> is_admin lower strip cfg s)"
proof -
  have stored: "\<forall>a \<in> set (ADMIN_EMAILS lower strip cfg). lower a = a"
    using ADMIN_EMAILS_lower [OF assms] by blast
  then show ?thesis
    by (simp add: is_admin_def current_user_email_def tabs_def)
qed

theorem admin_iff_lowercased_member_witness:
  "(\<forall>x. ascii_lower (ascii_lower x) = ascii_lower x)
   \<and> ADMIN_EMAILS ascii_lower ascii_strip ''admin@x.com'' = [''admin@x.com'']
   \<and> ascii_lower ''Admin@X.com'' = ascii_lower ''admin@x.com''
   \<and> is_admin ascii_lower ascii_strip ''admin@x.com''
        (init_session\<lparr>auth_user := Some \<lparr>email = Some ''Admin@X.com'', user_id = ''u1''\<rparr>\<rparr>)
   \<and> is_admin ascii_lower ascii_strip ''admin@x.com''
        (init_session\<lparr>auth_user := Some \<lparr>email = Some ''admin@x.com'', user_id = ''u1''\<rparr>\<rparr>)
   \<and> \<not> is_admin ascii_lower ascii_strip ''admin@x.com''
        (init_session\<lparr>auth_user := Some \<lparr>email = Some ''other@x.com'', user_id = ''u2''\<rparr>\<rparr>)
   \<and> tabs ascii_lower ascii_strip ''admin@x.com'' signed_in = [''Practice'', ''My Account'', ''Admin'']"
proof -
  have idem: "\<And>x. ascii_lower (ascii_lower x) = ascii_lower x" by (rule ascii_lower_idem)
  note inst = admin_iff_lowercased_member [of ascii_lower, OF idem]
  have low: "ascii_lower ''Admin@X.com'' = ascii_lower ''admin@x.com''"
    by (simp add: lower_mixed lower_plain)
  have a: "is_admin ascii_lower ascii_strip ''admin@x.com''
             (init_session\<lparr>auth_user := Some \<lparr>email = Some ''admin@x.com'', user_id = ''u1''\<rparr>\<rparr>)"
    using inst [where strip = ascii_strip and cfg = "''admin@x.com''" and s = init_session
                 and u = "\<lparr>email = Some ''admin@x.com'', user_id = ''u1''\<rparr>"]
    by (simp add: ADMIN_EMAILS_one lower_plain)
  have b: "is_admin ascii_lower ascii_strip ''admin@x.com''
             (init_session\<lparr>auth_user := Some \<lparr>email = Some ''Admin@X.com'', user_id = ''u1''\<rparr>\<rparr>)"
    using a low
      inst [where strip = ascii_strip and cfg = "''admin@x.com''" and s = init_session
             and ?e1.0 = "''Admin@X.com''" and ?e2.0 = "''admin@x.com''"
             and ?i1.0 = "''u1''" and ?i2.0 = "''u1''"]
    by simp
  have c: "\<not> is_admin ascii_lower ascii_strip ''admin@x.com''
             (init_session\<lparr>auth_user := Some \<lparr>email = Some ''other@x.com'', user_id = ''u2''\<rparr>\<rparr>)"
    using inst [where strip = ascii_strip and cfg = "''admin@x.com''" and s = init_session
                 and u = "\<lparr>email = Some ''other@x.com'', user_id = ''u2''\<rparr>"]
    by (simp add: ADMIN_EMAILS_one lower_other)
  have t: "signed_in = init_session\<lparr>auth_user := Some \<lparr>email = Some ''Admin@X.com'', user_id = ''u1''\<rparr>\<rparr>"
    by (simp add: signed_in_def)
  have d: "tabs ascii_lower ascii_strip ''admin@x.com'' signed_in = [''Practice'', ''My Account'', ''Admin'']"
    using b unfolding t by (simp add: tabs_def is_logged_in_def)
  from idem ADMIN_EMAILS_one low a b c d show ?thesis by simp
qed

section \<open>Sign-in failure\<close>

text \<open>
  Claim C8. When the provider fails (the call raises), \<open>sign_in\<close> returns \<open>None\<close> with
  the one error message \<open>Sign-in failed: ...\<close>, and the submitted sign-in form returns
  the session it was given: user, cursor, score and responses are the same.
\<close>

theorem failed_sign_in_keeps_session:
  assumes "provider em pw = Inl e"
  shows "sign_in provider em pw = (None, [Error (''Sign-in failed: '' @ e)])
       \<and> auth_block provider em pw s = (s, [Error (''Sign-in failed: '' @ e)])"
  using assms by (simp add: sign_in_def auth_block_def)

theorem failed_sign_in_keeps_session_witness:
  "rejecting_provider ''t@x.com'' ''wrong'' = Inl ''Invalid login credentials''
   \<and> sign_in rejecting_provider ''t@x.com'' ''wrong'' =
        (None, [Error ''Sign-in failed: Invalid login credentials''])
   \<and> auth_block rejecting_provider ''t@x.com'' ''wrong'' init_session =
        (init_session, [Error ''Sign-in failed: Invalid login credentials''])"
proof -
  have h: "rejecting_provider ''t@x.com'' ''wrong'' = Inl ''Invalid login credentials''"
    by (simp add: rejecting_provider_def)
  show ?thesis
    using h failed_sign_in_keeps_session
            [of rejecting_provider "''t@x.com''" "''wrong''" "''Invalid login credentials''"
                init_session]
    by simp
qed

section \<open>Loading the bank\<close>

text \<open>
  Claim C6, as amended. When the path does not exist, \<open>load_items\<close> returns the frame
  with the nine columns and no rows, together with one warning and no error; a run of the
  player on that frame returns the session unchanged.
\<close>

theorem load_items_absent:
  "load_items strip ld jsonl_path Absent =
     (Inr \<lparr>columns = [''case_id'', ''domain'', ''sub_specialty'', ''topic'', ''question'',
                       ''options'', ''correct_answer'', ''explanation'', ''guideline_reference''],
           rows = []\<rparr>,
      [Warning (''Question bank not found at `'' @ jsonl_path @ ''`. Using empty dataset.'')])
   \<and> df_empty \<lparr>columns = item_columns, rows = ([] :: item list)\<rparr>
   \<and> mcq_player \<lparr>columns = item_columns, rows = []\<rparr> dc sc ev s = Inr s"
  by (simp add: load_items_def item_columns_def df_empty_def mcq_player_def)

text \<open>
  Claim C6 as stated fails: a path that exists but does not lead to readable data (a
  directory, say) makes \<open>load_items\<close> raise, with no bank and no warning.
\<close>

theorem load_items_unreadable_raises:
  "load_items ascii_strip sample_loads ''data/items.jsonl'' Unreadable = (Inl OSError, [])"
  by (simp add: load_items_def)

lemma normalize_options_dict:
  "normalize_options v = PDict d' \<Longrightarrow> \<exists>d. v = PDict d \<and> d' = order_opts d"
  by (cases v) auto

lemma DataFrame_cells:
  "r \<in> set (rows (DataFrame rs)) \<Longrightarrow> (c, v) \<in> set r \<Longrightarrow> c \<in> set (columns (DataFrame rs))"
proof -
  assume r: "r \<in> set (rows (DataFrame rs))" and c: "(c, v) \<in> set r"
  from r obtain r0 where
    "r = map (\<lambda>c. (c, case map_of r0 c of None \<Rightarrow> PNaN | Some v \<Rightarrow> v)) (columns (DataFrame rs))"
    by (auto simp: DataFrame_def Let_def)
  with c show ?thesis by auto
qed

lemma apply_options_cell:
  "r \<in> set (rows (apply_options df)) \<Longrightarrow> (''options'', v) \<in> set r \<Longrightarrow>
     \<exists>v0. v = normalize_options v0"
proof -
  assume r: "r \<in> set (rows (apply_options df))" and c: "(''options'', v) \<in> set r"
  from r obtain r0 where
    "r = map (\<lambda>(c, v). if c = ''options'' then (c, normalize_options v) else (c, v)) r0"
    by (auto simp: apply_options_def)
  with c obtain c0 v0 where
    "(''options'', v) = (if c0 = ''options'' then (c0, normalize_options v0) else (c0, v0))"
    by auto
  then have "v = normalize_options v0" by (auto split: if_splits)
  then show ?thesis ..
qed

lemma load_items_File:
  "load_items strip ld p (File ls) = (Inr df, msgs) \<Longrightarrow>
     \<exists>rs. read_rows strip ld ls = Inr rs \<and>
          df = (if ''options'' \<in> set (columns (DataFrame rs)) then apply_options (DataFrame rs)
                else DataFrame rs)"
  by (auto simp: load_items_def Let_def split: sum.splits)

lemma loaded_options_cell:
  assumes "load_items strip ld p (File ls) = (Inr df, msgs)" "r \<in> set (rows df)"
    "(''options'', v) \<in> set r"
  shows "\<exists>v0. v = normalize_options v0"
proof -
  from load_items_File [OF assms(1)] obtain rs where
    df: "df = (if ''options'' \<in> set (columns (DataFrame rs)) then apply_options (DataFrame rs)
                else DataFrame rs)" by blast
  show ?thesis
  proof (cases "''options'' \<in> set (columns (DataFrame rs))")
    case True
    with df assms(2,3) show ?thesis by (auto dest: apply_options_cell)
  next
    case False
    with df assms(2,3) show ?thesis by (auto dest: DataFrame_cells)
  qed
qed

lemma sample_load:
  "load_items ascii_strip sample_loads ''data/items.jsonl'' (File [sample_line @ [CHR 0x0A], [CHR 0x0A]]) =
     (Inr \<lparr>columns = [''case_id'', ''options''],
           rows = [[(''case_id'', PStr ''C1''),
                    (''options'', PDict [(''A'', PStr ''first''), (''B'', PStr ''second''),
                                         (''D'', PStr ''fourth'')])]]\<rparr>, [])"
  by code_simp

text \<open>
  Claim C2. Normalising a dict of options gives a dict whose keys, in order, are the
  letters A, B, C, D, E restricted to the keys of the raw dict; raw keys B, A, D come out
  as A, B, D. In a frame that \<open>load_items\<close> returns, every cell of the \<open>options\<close>
  column that holds a dict is such a normalised dict.
\<close>

theorem options_canonical_order:
  "(\<exists>d'. normalize_options (PDict d) = PDict d'
         \<and> map fst d' = filter (\<lambda>k. k \<in> fst ` set d) [''A'', ''B'', ''C'', ''D'', ''E''])
   \<and> map fst (order_opts [(''B'', x), (''A'', y), (''D'', z)]) = [''A'', ''B'', ''D'']
   \<and> (load_items strip ld p (File ls) = (Inr df, msgs) \<and> r \<in> set (rows df)
        \<and> (''options'', PDict n) \<in> set r \<longrightarrow>
       (\<exists>d0. n = order_opts d0
          \<and> map fst n = filter (\<lambda>k. k \<in> fst ` set d0) [''A'', ''B'', ''C'', ''D'', ''E'']))"
proof -
  have a: "\<exists>d'. normalize_options (PDict d) = PDict d'
         \<and> map fst d' = filter (\<lambda>k. k \<in> fst ` set d) [''A'', ''B'', ''C'', ''D'', ''E'']"
  proof (intro exI [of _ "order_opts d"] conjI)
    show "normalize_options (PDict d) = PDict (order_opts d)" by simp
    show "map fst (order_opts d) = filter (\<lambda>k. k \<in> fst ` set d) [''A'', ''B'', ''C'', ''D'', ''E'']"
      unfolding order_opts_keys opt_keys_def ..
  qed
  have b: "map fst (order_opts [(''B'', x), (''A'', y), (''D'', z)]) = [''A'', ''B'', ''D'']"
    by (simp add: order_opts_def opt_keys_def)
  have c: "load_items strip ld p (File ls) = (Inr df, msgs) \<and> r \<in> set (rows df)
        \<and> (''options'', PDict n) \<in> set r \<longrightarrow>
       (\<exists>d0. n = order_opts d0
          \<and> map fst n = filter (\<lambda>k. k \<in> fst ` set d0) [''A'', ''B'', ''C'', ''D'', ''E''])"
  proof
    assume h: "load_items strip ld p (File ls) = (Inr df, msgs) \<and> r \<in> set (rows df)
        \<and> (''options'', PDict n) \<in> set r"
    then obtain v0 where "PDict n = normalize_options v0"
      using loaded_options_cell by blast
    then obtain d0 where n: "n = order_opts d0"
      using normalize_options_dict [of v0 n] by auto
    have "map fst n = filter (\<lambda>k. k \<in> fst ` set d0) [''A'', ''B'', ''C'', ''D'', ''E'']"
      unfolding n order_opts_keys opt_keys_def ..
    with n show "\<exists>d0. n = order_opts d0
          \<and> map fst n = filter (\<lambda>k. k \<in> fst ` set d0) [''A'', ''B'', ''C'', ''D'', ''E'']"
      by (intro exI [of _ d0] conjI)
  qed
  show ?thesis by (intro conjI a b c)
qed

theorem options_canonical_order_witness:
  "load_items ascii_strip sample_loads ''data/items.jsonl'' (File [sample_line @ [CHR 0x0A], [CHR 0x0A]]) =
     (Inr \<lparr>columns = [''case_id'', ''options''],
           rows = [[(''case_id'', PStr ''C1''),
                    (''options'', PDict [(''A'', PStr ''first''), (''B'', PStr ''second''),
                                         (''D'', PStr ''fourth'')])]]\<rparr>, [])
   \<and> (\<exists>d0. [(''A'', PStr ''first''), (''B'', PStr ''second''), (''D'', PStr ''fourth'')] = order_opts d0
          \<and> map fst [(''A'', PStr ''first''), (''B'', PStr ''second''), (''D'', PStr ''fourth'')]
              = filter (\<lambda>k. k \<in> fst ` set d0) [''A'', ''B'', ''C'', ''D'', ''E''])
   \<and> normalize_options (PDict [(''B'', PStr ''second''), (''A'', PStr ''first''), (''D'', PStr ''fourth'')])
       = PDict [(''A'', PStr ''first''), (''B'', PStr ''second''), (''D'', PStr ''fourth'')]"
proof -
  let ?n = "[(''A'', PStr ''first''), (''B'', PStr ''second''), (''D'', PStr ''fourth'')]"
  let ?r = "[(''case_id'', PStr ''C1''), (''options'', PDict ?n)]"
  let ?df = "\<lparr>columns = [''case_id'', ''options''], rows = [?r]\<rparr>"
  have h: "load_items ascii_strip sample_loads ''data/items.jsonl'' (File [sample_line @ [CHR 0x0A], [CHR 0x0A]])
             = (Inr ?df, []) \<and> ?r \<in> set (rows ?df) \<and> (''options'', PDict ?n) \<in> set ?r"
    using sample_load by simp
  have e: "normalize_options (PDict [(''B'', PStr ''second''), (''A'', PStr ''first''), (''D'', PStr ''fourth'')])
       = PDict ?n"
    by (simp add: order_opts_def opt_keys_def)
  have "\<exists>d0. ?n = order_opts d0
          \<and> map fst ?n = filter (\<lambda>k. k \<in> fst ` set d0) [''A'', ''B'', ''C'', ''D'', ''E'']"
    using h options_canonical_order
            [where strip = ascii_strip and ld = sample_loads and p = "''data/items.jsonl''"
               and ls = "[sample_line @ [CHR 0x0A], [CHR 0x0A]]" and df = ?df
               and msgs = "[]" and r = ?r and n = ?n and d = "[]"
               and x = PNone and y = PNone and z = PNone]
    by blast
  with sample_load e show ?thesis by (intro conjI)
qed

text \<open>
  Claim C10. The normalised dict holds exactly the pairs \<open>(k, d[k])\<close> for the letters
  \<open>k\<close> among A to E that are keys of the raw dict \<open>d\<close>, each key once: a lookup of
  a letter gives the raw value, a lookup of any other key gives nothing. A value that is
  not a dict is returned as it is.
\<close>

theorem normalize_options_preserves:
  "normalize_options (PDict d) = PDict (order_opts d)
   \<and> set (order_opts d) =
        {(k, v). k \<in> set [''A'', ''B'', ''C'', ''D'', ''E''] \<and> map_of d k = Some v}
   \<and> distinct (map fst (order_opts d))
   \<and> map_of (order_opts d) k =
        (if k \<in> set [''A'', ''B'', ''C'', ''D'', ''E''] then map_of d k else None)
   \<and> fst ` set (order_opts d) = fst ` set d \<inter> set [''A'', ''B'', ''C'', ''D'', ''E'']
   \<and> ((\<forall>d0. v \<noteq> PDict d0) \<longrightarrow> normalize_options v = v)"
proof -
  have keys: "fst ` set (order_opts d) = fst ` set d \<inter> set opt_keys"
  proof -
    have "fst ` set (order_opts d) = set (map fst (order_opts d))" by simp
    also have "\<dots> = fst ` set d \<inter> set opt_keys"
      unfolding order_opts_keys by auto
    finally show ?thesis .
  qed
  have other: "(\<forall>d0. v \<noteq> PDict d0) \<longrightarrow> normalize_options v = v"
    by (cases v) auto
  show ?thesis
    using set_order_opts [of d] distinct_order_opts [of d] map_of_order_opts [of d k] keys other
    by (simp add: opt_keys_def)
qed

theorem normalize_options_preserves_witness:
  "normalize_options (PDict [(''B'', PStr ''second''), (''Z'', PStr ''stray''), (''A'', PStr ''first'')])
     = PDict [(''A'', PStr ''first''), (''B'', PStr ''second'')]
   \<and> map_of (order_opts [(''B'', PStr ''second''), (''Z'', PStr ''stray''), (''A'', PStr ''first'')]) ''Z'' = None
   \<and> map_of (order_opts [(''B'', PStr ''second''), (''Z'', PStr ''stray''), (''A'', PStr ''first'')]) ''B''
       = Some (PStr ''second'')
   \<and> normalize_options (PStr ''A. first'') = PStr ''A. first''
   \<and> normalize_options PNaN = PNaN"
proof -
  let ?d = "[(''B'', PStr ''second''), (''Z'', PStr ''stray''), (''A'', PStr ''first'')]"
  have n1: "\<forall>d0. PStr ''A. first'' \<noteq> PDict d0" by simp
  have n2: "\<forall>d0. PNaN \<noteq> PDict d0" by simp
  have o: "order_opts ?d = [(''A'', PStr ''first''), (''B'', PStr ''second'')]"
    by (simp add: order_opts_def opt_keys_def)
  show ?thesis
    using n1 n2 o
      normalize_options_preserves [where d = ?d and k = "''Z''" and v = "PStr ''A. first''"]
      normalize_options_preserves [where d = ?d and k = "''B''" and v = PNaN]
    by simp
qed

end
